theory Spec2Isabelle
  imports Main
begin

section \<open>The trace registry of pkg/gadgets/interface.go\<close>

text \<open>
  The source file declares the interfaces a gadget factory may satisfy and the struct
  \<open>BaseFactory\<close>, whose methods \<open>Initialize\<close>, \<open>LookupOrCreate\<close>, \<open>Delete\<close> and
  \<open>Operations\<close> keep one trace object per name. This theory embeds those four methods
  as functions on an explicit state and proves properties of them.

  What lies outside the struct (the state that the callbacks \<open>newTrace\<close> and
  \<open>DeleteTrace\<close> can reach, and the lines written through the logger) is passed
  along as an environment. The mutex \<open>mu\<close> holds no data of the registry: every method
  that takes it releases it through \<open>defer\<close> on each return path, so in a run of one
  call after the other it is free before and after every call. It is not a field of the
  model, and nothing here speaks about interleaved callers.
\<close>

subsection \<open>Values of Go\<close>

text \<open>A value of type \<open>interface{}\<close>: the nil interface, or a boxed value.\<close>

datatype 'v iface = NilIface | Iface 'v

text \<open>
  A Go map value is either nil or a table. Reading a nil map gives the zero value and
  \<open>ok = false\<close>, the builtin \<open>delete\<close> on a nil map does nothing, and an assignment
  into a nil map panics.
\<close>

type_synonym ('k, 'v) go_map = "('k \<rightharpoonup> 'v) option"

datatype panic = AssignmentToEntryInNilMap

definition make_map :: "('k, 'v) go_map" where
  "make_map = Some Map.empty"

definition map_index :: "('k, 'v iface) go_map \<Rightarrow> 'k \<Rightarrow> 'v iface \<times> bool" where
  "map_index m k =
     (case m of
        None \<Rightarrow> (NilIface, False)
      | Some t \<Rightarrow> (case t k of None \<Rightarrow> (NilIface, False) | Some v \<Rightarrow> (v, True)))"

definition map_assign :: "('k, 'v) go_map \<Rightarrow> 'k \<Rightarrow> 'v \<Rightarrow> panic + ('k, 'v) go_map" where
  "map_assign m k v =
     (case m of
        None \<Rightarrow> Inl AssignmentToEntryInNilMap
      | Some t \<Rightarrow> Inr (Some (t(k \<mapsto> v))))"

definition map_delete :: "('k, 'v) go_map \<Rightarrow> 'k \<Rightarrow> ('k, 'v) go_map" where
  "map_delete m k = (case m of None \<Rightarrow> None | Some t \<Rightarrow> Some (t(k := None)))"

subsection \<open>The environment of a call\<close>

record 'w env =
  world :: 'w
  logs :: "string list"

text \<open>\<open>log.Infof\<close>, with the formatted line as its argument.\<close>

definition Infof :: "string \<Rightarrow> 'w env \<Rightarrow> 'w env" where
  "Infof line e = e\<lparr>logs := logs e @ [line]\<rparr>"

text \<open>
  The argument \<open>newTrace func() interface{}\<close> of \<open>LookupOrCreate\<close>: a nil func is
  \<open>None\<close>; a call of the function returns a value and may change the environment.
  The callbacks are taken to return: one that panics, or that calls back into the same
  factory while its lock is held, is outside this model.
\<close>

type_synonym ('v, 'w) newTrace = "('w env \<Rightarrow> 'v iface \<times> 'w env) option"

text \<open>The method \<open>DeleteTrace(name string, trace interface{})\<close> of a gadget.\<close>

type_synonym ('v, 'w) DeleteTrace = "string \<Rightarrow> 'v iface \<Rightarrow> 'w env \<Rightarrow> 'w env"

subsection \<open>Interfaces, method sets and type assertions\<close>

datatype method_name =
  M_Initialize | M_LookupOrCreate | M_Delete | M_Operations | M_DeleteTrace

text \<open>An interface is the list of the methods it asks for.\<close>

definition TraceFactory :: "method_name list" where
  "TraceFactory = [M_Initialize, M_Delete, M_Operations]"

definition TraceFactoryWithDeleteTrace :: "method_name list" where
  "TraceFactoryWithDeleteTrace = TraceFactory @ [M_DeleteTrace]"

text \<open>
  A concrete type, as far as an interface value of that dynamic type shows it: the
  names in its method set, and the body of its \<open>DeleteTrace\<close> method when it has one.
\<close>

record ('v, 'w) concrete_type =
  method_set :: "method_name list"
  DeleteTrace_body :: "('v, 'w) DeleteTrace option"

text \<open>
  \<open>x.(I)\<close> on an interface value \<open>x\<close> of dynamic type \<open>T\<close>: it succeeds exactly when
  the method set of \<open>T\<close> has every method of \<open>I\<close>.
\<close>

definition type_assertion ::
  "('v, 'w) concrete_type \<Rightarrow> method_name list \<Rightarrow> ('v, 'w) concrete_type option" where
  "type_assertion T I = (if set I \<subseteq> set (method_set T) then Some T else None)"

definition call_DeleteTrace ::
  "('v, 'w) concrete_type \<Rightarrow> string \<Rightarrow> 'v iface \<Rightarrow> 'w env \<Rightarrow> 'w env" where
  "call_DeleteTrace T name trace e =
     (case DeleteTrace_body T of None \<Rightarrow> e | Some body \<Rightarrow> body name trace e)"

text \<open>
  The type \<open>*BaseFactory\<close>. The source declares four methods with the receiver
  \<open>(f *BaseFactory)\<close>; the struct has no embedded field (\<open>Resolver\<close>, \<open>Client\<close>,
  \<open>mu\<close> and \<open>traces\<close> are named fields), so no method is promoted into it.
\<close>

definition ptr_BaseFactory :: "('v, 'w) concrete_type" where
  "ptr_BaseFactory =
     \<lparr>method_set = [M_Initialize, M_LookupOrCreate, M_Delete, M_Operations],
      DeleteTrace_body = None\<rparr>"

subsection \<open>BaseFactory and its methods\<close>

record ('r, 'c, 'v) BaseFactory =
  Resolver :: 'r
  Client :: 'c
  traces :: "(string, 'v iface) go_map"

definition Initialize ::
  "'r \<Rightarrow> 'c \<Rightarrow> ('r, 'c, 'v) BaseFactory \<Rightarrow> ('r, 'c, 'v) BaseFactory" where
  "Initialize r c f = f\<lparr>Resolver := r, Client := c\<rparr>"

text \<open>
  The tail of \<open>LookupOrCreate\<close>, reached when no entry was found: the nil check on
  \<open>newTrace\<close>, the call, and the assignment \<open>f.traces[name] = trace\<close>.
\<close>

definition LookupOrCreate_new ::
  "string \<Rightarrow> ('v, 'w) newTrace \<Rightarrow> ('r, 'c, 'v) BaseFactory \<Rightarrow> 'w env
     \<Rightarrow> panic + ('v iface \<times> ('r, 'c, 'v) BaseFactory \<times> 'w env)" where
  "LookupOrCreate_new name newTrace f e =
     (case newTrace of
        None \<Rightarrow> Inr (NilIface, f, e)
      | Some new \<Rightarrow>
          (case new e of
             (trace, e') \<Rightarrow>
               (case map_assign (traces f) name trace of
                  Inl p \<Rightarrow> Inl p
                | Inr m \<Rightarrow> Inr (trace, f\<lparr>traces := m\<rparr>, e'))))"

definition LookupOrCreate ::
  "string \<Rightarrow> ('v, 'w) newTrace \<Rightarrow> ('r, 'c, 'v) BaseFactory \<Rightarrow> 'w env
     \<Rightarrow> panic + ('v iface \<times> ('r, 'c, 'v) BaseFactory \<times> 'w env)" where
  "LookupOrCreate name newTrace f e =
     (if traces f = None then LookupOrCreate_new name newTrace (f\<lparr>traces := make_map\<rparr>) e
      else
        (case map_index (traces f) name of
           (trace, ok) \<Rightarrow>
             if ok then Inr (trace, f, e) else LookupOrCreate_new name newTrace f e))"

text \<open>
  \<open>Delete\<close>. The value asserted is \<open>TraceFactory(f)\<close> with \<open>f\<close> of static type
  \<open>*BaseFactory\<close>, so the dynamic type of the interface value is \<open>*BaseFactory\<close>.
\<close>

definition Delete ::
  "string \<Rightarrow> ('r, 'c, 'v) BaseFactory \<Rightarrow> 'w env \<Rightarrow> ('r, 'c, 'v) BaseFactory \<times> 'w env" where
  "Delete name f e =
     (let e1 = Infof (''Deleting '' @ name) e in
      case map_index (traces f) name of
        (trace, ok) \<Rightarrow>
          if \<not> ok then (f, Infof (''Deleting '' @ name @ '': does not exist'') e1)
          else
            (let e2 = (case type_assertion ptr_BaseFactory TraceFactoryWithDeleteTrace of
                         Some factory \<Rightarrow> call_DeleteTrace factory name trace e1
                       | None \<Rightarrow> e1)
             in (f\<lparr>traces := map_delete (traces f) name\<rparr>, e2)))"

record ('t, 'w) TraceOperation =
  Operation :: "string \<Rightarrow> 't \<Rightarrow> 'w env \<Rightarrow> 'w env"
  Doc :: string
  Order :: int

definition Operations ::
  "('r, 'c, 'v) BaseFactory \<Rightarrow> (string, ('t, 'w) TraceOperation) go_map" where
  "Operations f = Some Map.empty"

subsection \<open>Observing the registry\<close>

text \<open>
  The name-to-value mapping the registry holds. Every read of \<open>f.traces\<close> in the
  source goes through an index expression, for which a nil map and an empty map are
  alike.
\<close>

definition entries :: "('r, 'c, 'v) BaseFactory \<Rightarrow> (string \<rightharpoonup> 'v iface)" where
  "entries f = (case traces f of None \<Rightarrow> Map.empty | Some t \<Rightarrow> t)"

definition trace_entries :: "('r, 'c, 'v) BaseFactory \<Rightarrow> (string \<times> 'v iface) set" where
  "trace_entries f = Map.graph (entries f)"

subsection \<open>A gadget that embeds BaseFactory\<close>

text \<open>
  The doc comments of \<open>TraceFactory\<close> describe how gadgets use \<open>BaseFactory\<close>: as an
  anonymous field, whose methods are promoted to the gadget. Such a gadget with a
  \<open>DeleteTrace\<close> method of its own has the four promoted methods and \<open>DeleteTrace\<close>
  in its method set. A call \<open>g.Delete(name)\<close> of the promoted method runs
  \<open>Delete\<close> with the embedded \<open>BaseFactory\<close> as its receiver.
\<close>

record ('r, 'c, 'v, 'w) Gadget =
  embedded :: "('r, 'c, 'v) BaseFactory"
  DeleteTrace_impl :: "('v, 'w) DeleteTrace"

definition ptr_Gadget :: "('r, 'c, 'v, 'w) Gadget \<Rightarrow> ('v, 'w) concrete_type" where
  "ptr_Gadget g =
     \<lparr>method_set = [M_Initialize, M_LookupOrCreate, M_Delete, M_Operations, M_DeleteTrace],
      DeleteTrace_body = Some (DeleteTrace_impl g)\<rparr>"

definition Gadget_Delete ::
  "string \<Rightarrow> ('r, 'c, 'v, 'w) Gadget \<Rightarrow> 'w env \<Rightarrow> ('r, 'c, 'v, 'w) Gadget \<times> 'w env" where
  "Gadget_Delete name g e =
     (case Delete name (embedded g) e of (b, e') \<Rightarrow> (g\<lparr>embedded := b\<rparr>, e'))"

text \<open>A \<open>DeleteTrace\<close> that records each call with its arguments.\<close>

definition record_call :: "('v, (string \<times> 'v iface) list) DeleteTrace" where
  "record_call name trace e = e\<lparr>world := world e @ [(name, trace)]\<rparr>"

text \<open>
  A constructor function that returns \<open>v\<close> and counts its calls in the world.
\<close>

definition counting :: "'v iface \<Rightarrow> nat env \<Rightarrow> 'v iface \<times> nat env" where
  "counting v e = (v, e\<lparr>world := world e + 1\<rparr>)"

subsection \<open>Sequences of calls\<close>

datatype ('r, 'c, 'v, 'w) call =
  Call_Initialize 'r 'c
| Call_LookupOrCreate string "('v, 'w) newTrace"
| Call_Delete string

fun step ::
  "('r, 'c, 'v, 'w) call \<Rightarrow> ('r, 'c, 'v) BaseFactory \<times> 'w env
     \<Rightarrow> panic + (('r, 'c, 'v) BaseFactory \<times> 'w env)" where
  "step (Call_Initialize r c) (f, e) = Inr (Initialize r c f, e)"
| "step (Call_LookupOrCreate name newTrace) (f, e) =
     (case LookupOrCreate name newTrace f e of
        Inl p \<Rightarrow> Inl p
      | Inr (trace, f', e') \<Rightarrow> Inr (f', e'))"
| "step (Call_Delete name) (f, e) = Inr (Delete name f e)"

fun run ::
  "('r, 'c, 'v, 'w) call list \<Rightarrow> ('r, 'c, 'v) BaseFactory \<times> 'w env
     \<Rightarrow> panic + (('r, 'c, 'v) BaseFactory \<times> 'w env)" where
  "run [] s = Inr s"
| "run (c # cs) s = (case step c s of Inl p \<Rightarrow> Inl p | Inr s' \<Rightarrow> run cs s')"

section \<open>Properties\<close>

subsection \<open>Map reads and the type assertion of Delete\<close>

lemma map_index_entries:
  "map_index (traces f) n =
     (case entries f n of None \<Rightarrow> (NilIface, False) | Some v \<Rightarrow> (v, True))"
  by (simp add: map_index_def entries_def split: option.splits)

lemma entries_traces_update [simp]: "entries (f\<lparr>traces := Some t\<rparr>) = t"
  by (simp add: entries_def)

lemma entries_Initialize [simp]: "entries (Initialize r c f) = entries f"
  by (simp add: entries_def Initialize_def)

text \<open>
  \<open>*BaseFactory\<close> has no \<open>DeleteTrace\<close> in its method set, so the assertion in
  \<open>Delete\<close> takes its \<open>ok = false\<close> branch.
\<close>

lemma BaseFactory_assertion_fails:
  "type_assertion ptr_BaseFactory TraceFactoryWithDeleteTrace = None"
  by (simp add: type_assertion_def ptr_BaseFactory_def TraceFactoryWithDeleteTrace_def
      TraceFactory_def)

lemma Gadget_assertion_succeeds:
  "type_assertion (ptr_Gadget g) TraceFactoryWithDeleteTrace = Some (ptr_Gadget g)"
  by (simp add: type_assertion_def ptr_Gadget_def TraceFactoryWithDeleteTrace_def
      TraceFactory_def)

subsection \<open>The two outcomes of Delete\<close>

lemma Delete_absent:
  assumes "entries f n = None"
  shows "Delete n f e =
     (f, e\<lparr>logs := logs e @ [''Deleting '' @ n, ''Deleting '' @ n @ '': does not exist'']\<rparr>)"
  using assms by (simp add: Delete_def map_index_entries Infof_def)

lemma Delete_present:
  assumes "entries f n = Some v"
  shows "Delete n f e =
     (f\<lparr>traces := Some ((entries f)(n := None))\<rparr>, e\<lparr>logs := logs e @ [''Deleting '' @ n]\<rparr>)"
proof -
  from assms obtain t where t: "traces f = Some t" "t n = Some v"
    by (auto simp add: entries_def split: option.splits)
  then show ?thesis
    by (simp add: Delete_def map_index_def Infof_def BaseFactory_assertion_fails
        map_delete_def entries_def)
qed

lemma Delete_world: "world (snd (Delete n f e)) = world e"
proof (cases "entries f n")
  case None
  then show ?thesis by (simp add: Delete_absent)
next
  case (Some v)
  then show ?thesis by (simp add: Delete_present)
qed

lemma Delete_entries: "entries (fst (Delete n f e)) = (entries f)(n := None)"
proof (cases "entries f n")
  case None
  then show ?thesis by (simp add: Delete_absent fun_upd_idem)
next
  case (Some v)
  then show ?thesis by (simp add: Delete_present)
qed

subsection \<open>The three outcomes of LookupOrCreate\<close>

lemma LookupOrCreate_present:
  assumes "entries f n = Some v"
  shows "LookupOrCreate n newTrace f e = Inr (v, f, e)"
proof -
  from assms obtain t where "traces f = Some t" "t n = Some v"
    by (auto simp add: entries_def split: option.splits)
  then show ?thesis
    by (simp add: LookupOrCreate_def map_index_def)
qed

lemma LookupOrCreate_absent_nil:
  assumes "entries f n = None"
  shows "LookupOrCreate n None f e = Inr (NilIface, f\<lparr>traces := Some (entries f)\<rparr>, e)"
proof (cases "traces f")
  case None
  then show ?thesis
    by (simp add: LookupOrCreate_def LookupOrCreate_new_def make_map_def entries_def)
next
  case (Some t)
  with assms have "t n = None" by (simp add: entries_def)
  with Some show ?thesis
    by (simp add: LookupOrCreate_def LookupOrCreate_new_def map_index_def entries_def)
qed

lemma LookupOrCreate_absent_new:
  assumes "entries f n = None"
  shows "LookupOrCreate n (Some new) f e =
     Inr (fst (new e), f\<lparr>traces := Some ((entries f)(n \<mapsto> fst (new e)))\<rparr>, snd (new e))"
proof (cases "traces f")
  case None
  then show ?thesis
    by (simp add: LookupOrCreate_def LookupOrCreate_new_def make_map_def map_assign_def
        entries_def split: prod.splits)
next
  case (Some t)
  with assms have "t n = None" by (simp add: entries_def)
  with Some show ?thesis
    by (simp add: LookupOrCreate_def LookupOrCreate_new_def map_index_def map_assign_def
        entries_def split: prod.splits)
qed

text \<open>
  \<open>LookupOrCreate\<close> never reaches the panic of an assignment into a nil map, and it
  changes the mapping at most at the name it was called with.
\<close>

lemma LookupOrCreate_returns:
  "\<exists>v f' e'. LookupOrCreate n newTrace f e = Inr (v, f', e') \<and>
     (\<forall>k. k \<noteq> n \<longrightarrow> entries f' k = entries f k) \<and>
     (\<forall>u. entries f n = Some u \<longrightarrow> entries f' n = Some u)"
proof (cases "entries f n")
  case (Some u)
  then show ?thesis by (simp add: LookupOrCreate_present)
next
  case None
  show ?thesis
  proof (cases newTrace)
    case None
    with \<open>entries f n = None\<close> show ?thesis by (simp add: LookupOrCreate_absent_nil)
  next
    case (Some new)
    with \<open>entries f n = None\<close> show ?thesis by (simp add: LookupOrCreate_absent_new)
  qed
qed

subsection \<open>Sequences of calls\<close>

lemma step_returns:
  "\<exists>f' e'. step c (f, e) = Inr (f', e') \<and>
     (c \<noteq> Call_Delete n \<longrightarrow> (\<forall>u. entries f n = Some u \<longrightarrow> entries f' n = Some u))"
proof (cases c)
  case (Call_Initialize r c')
  then show ?thesis by simp
next
  case (Call_LookupOrCreate m newTrace)
  obtain v f' e' where
    r: "LookupOrCreate m newTrace f e = Inr (v, f', e')"
    and other: "\<forall>k. k \<noteq> m \<longrightarrow> entries f' k = entries f k"
    and same: "\<forall>u. entries f m = Some u \<longrightarrow> entries f' m = Some u"
    using LookupOrCreate_returns [of m newTrace f e] by blast
  from other same have "\<forall>u. entries f n = Some u \<longrightarrow> entries f' n = Some u"
    by (cases "n = m") auto
  with r Call_LookupOrCreate show ?thesis by simp
next
  case (Call_Delete m)
  obtain f' e' where d: "Delete m f e = (f', e')" by (cases "Delete m f e")
  then have "entries f' = (entries f)(m := None)"
    using Delete_entries [of m f e] by simp
  with d Call_Delete show ?thesis by auto
qed

lemma run_returns:
  "\<exists>f' e'. run cs (f, e) = Inr (f', e') \<and>
     (Call_Delete n \<notin> set cs \<longrightarrow> (\<forall>u. entries f n = Some u \<longrightarrow> entries f' n = Some u))"
proof (induction cs arbitrary: f e)
  case Nil
  show ?case by simp
next
  case (Cons c cs)
  obtain f1 e1 where
    s: "step c (f, e) = Inr (f1, e1)"
    and keep1: "c \<noteq> Call_Delete n \<longrightarrow> (\<forall>u. entries f n = Some u \<longrightarrow> entries f1 n = Some u)"
    using step_returns [of c f e n] by blast
  obtain f2 e2 where
    r: "run cs (f1, e1) = Inr (f2, e2)"
    and keep2: "Call_Delete n \<notin> set cs \<longrightarrow> (\<forall>u. entries f1 n = Some u \<longrightarrow> entries f2 n = Some u)"
    using Cons.IH [of f1 e1] by blast
  from s r have "run (c # cs) (f, e) = Inr (f2, e2)" by simp
  moreover from keep1 keep2 have
    "Call_Delete n \<notin> set (c # cs) \<longrightarrow> (\<forall>u. entries f n = Some u \<longrightarrow> entries f2 n = Some u)"
    by auto
  ultimately show ?case by blast
qed

lemma one_value_per_name: "card {v. (n, v) \<in> trace_entries f} \<le> 1"
proof (cases "entries f n")
  case None
  then have "{v. (n, v) \<in> trace_entries f} = {}"
    by (simp add: trace_entries_def Map.graph_def)
  then show ?thesis by simp
next
  case (Some u)
  then have "{v. (n, v) \<in> trace_entries f} = {u}"
    by (auto simp add: trace_entries_def Map.graph_def)
  then show ?thesis by simp
qed

section \<open>The claims\<close>

subsection \<open>Delete and the custom delete hook\<close>

text \<open>
  Claim C1. For a name with an entry, \<open>Delete\<close> should call the \<open>DeleteTrace\<close> method
  of a factory that satisfies \<open>TraceFactoryWithDeleteTrace\<close>, with the name and the
  stored value, before it removes the entry; afterwards \<open>LookupOrCreate\<close> with a nil
  function returns nil.

  The code does not do the first part. Evaluated on a gadget that embeds
  \<open>BaseFactory\<close>, declares a \<open>DeleteTrace\<close> that records its calls, and holds the
  entry \<open>t1\<close>: the gadget satisfies the interface, \<open>Delete\<close> removes the entry and
  writes its log line, and the record of calls is still empty. The lookup afterwards
  returns nil.
\<close>

theorem Delete_does_not_call_DeleteTrace_of_gadget:
  "type_assertion
     (ptr_Gadget
        \<lparr>embedded = \<lparr>Resolver = (), Client = (), traces = Some [''t1'' \<mapsto> Iface (7::nat)]\<rparr>,
         DeleteTrace_impl = record_call\<rparr>)
     TraceFactoryWithDeleteTrace \<noteq> None \<and>
   Gadget_Delete ''t1''
     \<lparr>embedded = \<lparr>Resolver = (), Client = (), traces = Some [''t1'' \<mapsto> Iface (7::nat)]\<rparr>,
      DeleteTrace_impl = record_call\<rparr>
     \<lparr>world = [], logs = []\<rparr> =
     (\<lparr>embedded = \<lparr>Resolver = (), Client = (), traces = Some Map.empty\<rparr>,
       DeleteTrace_impl = record_call\<rparr>,
      \<lparr>world = [], logs = [''Deleting t1'']\<rparr>) \<and>
   LookupOrCreate ''t1'' None
     \<lparr>Resolver = (), Client = (), traces = Some (Map.empty :: string \<rightharpoonup> nat iface)\<rparr>
     \<lparr>world = [] :: (string \<times> nat iface) list, logs = [''Deleting t1'']\<rparr> =
     Inr (NilIface, \<lparr>Resolver = (), Client = (), traces = Some Map.empty\<rparr>,
          \<lparr>world = [], logs = [''Deleting t1'']\<rparr>)"
proof -
  let ?b = "\<lparr>Resolver = (), Client = (), traces = Some [''t1'' \<mapsto> Iface (7::nat)]\<rparr>"
  let ?e = "\<lparr>world = [] :: (string \<times> nat iface) list, logs = []\<rparr>"
  have present: "entries ?b ''t1'' = Some (Iface 7)"
    by (simp add: entries_def)
  have "Delete ''t1'' ?b ?e =
      (\<lparr>Resolver = (), Client = (), traces = Some Map.empty\<rparr>,
       \<lparr>world = [], logs = [''Deleting t1'']\<rparr>)"
    using Delete_present [OF present, of ?e] by (simp add: entries_def)
  then have del: "Gadget_Delete ''t1'' \<lparr>embedded = ?b, DeleteTrace_impl = record_call\<rparr> ?e =
      (\<lparr>embedded = \<lparr>Resolver = (), Client = (), traces = Some Map.empty\<rparr>,
        DeleteTrace_impl = record_call\<rparr>,
       \<lparr>world = [], logs = [''Deleting t1'']\<rparr>)"
    by (simp add: Gadget_Delete_def)
  have look: "LookupOrCreate ''t1'' None
      \<lparr>Resolver = (), Client = (), traces = Some (Map.empty :: string \<rightharpoonup> nat iface)\<rparr>
      \<lparr>world = [] :: (string \<times> nat iface) list, logs = [''Deleting t1'']\<rparr> =
      Inr (NilIface, \<lparr>Resolver = (), Client = (), traces = Some Map.empty\<rparr>,
           \<lparr>world = [], logs = [''Deleting t1'']\<rparr>)"
    by (simp add: LookupOrCreate_def LookupOrCreate_new_def map_index_def)
  show ?thesis
    using del look by (simp add: Gadget_assertion_succeeds)
qed

subsection \<open>LookupOrCreate\<close>

text \<open>
  Claim C2. For every name and every function argument, nil or not: when the name has
  an entry, \<open>LookupOrCreate\<close> returns the stored value, and neither the registry nor the
  environment changes, so the function was not called. When the name has no entry and
  the function is not nil, the result and the new environment are those of one call of
  the function on the environment of the caller, and the registry holds the result
  under the name.
\<close>

theorem LookupOrCreate_existing_or_created:
  "(entries f n = Some v \<longrightarrow> LookupOrCreate n newTrace f e = Inr (v, f, e)) \<and>
   (entries f n = None \<longrightarrow>
      LookupOrCreate n (Some new) f e =
        Inr (fst (new e), f\<lparr>traces := Some ((entries f)(n \<mapsto> fst (new e)))\<rparr>, snd (new e)))"
  by (simp add: LookupOrCreate_present LookupOrCreate_absent_new)

text \<open>
  The scenario of the specification, with a counter of calls as the world: on an empty
  registry \<open>makeFoo\<close> is called once and its value stored under \<open>t1\<close>; a second call
  with \<open>makeBar\<close> returns that value and leaves the counter alone.
\<close>

theorem LookupOrCreate_existing_or_created_witness:
  "LookupOrCreate ''t1'' (Some (counting (Iface ''Foo'')))
     \<lparr>Resolver = (), Client = (), traces = None\<rparr> \<lparr>world = 0::nat, logs = []\<rparr> =
     Inr (Iface ''Foo'',
          \<lparr>Resolver = (), Client = (), traces = Some [''t1'' \<mapsto> Iface ''Foo'']\<rparr>,
          \<lparr>world = 1, logs = []\<rparr>) \<and>
   LookupOrCreate ''t1'' (Some (counting (Iface ''Bar'')))
     \<lparr>Resolver = (), Client = (), traces = Some [''t1'' \<mapsto> Iface ''Foo'']\<rparr>
     \<lparr>world = 1::nat, logs = []\<rparr> =
     Inr (Iface ''Foo'',
          \<lparr>Resolver = (), Client = (), traces = Some [''t1'' \<mapsto> Iface ''Foo'']\<rparr>,
          \<lparr>world = 1, logs = []\<rparr>)"
  using
    LookupOrCreate_existing_or_created
      [where f = "\<lparr>Resolver = (), Client = (), traces = None\<rparr>" and n = "''t1''"
         and new = "counting (Iface ''Foo'')"
         and e = "\<lparr>world = 0::nat, logs = []\<rparr>"]
    LookupOrCreate_existing_or_created
      [where f = "\<lparr>Resolver = (), Client = (), traces = Some [''t1'' \<mapsto> Iface ''Foo'']\<rparr>"
         and n = "''t1''" and v = "Iface ''Foo''"
         and newTrace = "Some (counting (Iface ''Bar''))"
         and e = "\<lparr>world = 1::nat, logs = []\<rparr>"]
  by (simp add: entries_def counting_def)

text \<open>
  Claim C4. For every name with no entry, \<open>LookupOrCreate\<close> with a nil function
  returns nil and leaves the environment as it was; the mapping from names to values
  afterwards is the one before the call. (A nil \<open>traces\<close> field is replaced by an empty
  map, which reads the same.)
\<close>

theorem LookupOrCreate_nil_func_no_entry:
  "entries f n = None \<Longrightarrow>
   LookupOrCreate n None f e = Inr (NilIface, f\<lparr>traces := Some (entries f)\<rparr>, e) \<and>
   entries (f\<lparr>traces := Some (entries f)\<rparr>) = entries f \<and>
   Resolver (f\<lparr>traces := Some (entries f)\<rparr>) = Resolver f \<and>
   Client (f\<lparr>traces := Some (entries f)\<rparr>) = Client f"
  by (simp add: LookupOrCreate_absent_nil)

theorem LookupOrCreate_nil_func_no_entry_witness:
  "entries \<lparr>Resolver = (), Client = (), traces = Some [''t1'' \<mapsto> Iface (7::nat)]\<rparr> ''t2'' = None \<and>
   LookupOrCreate ''t2'' None
     \<lparr>Resolver = (), Client = (), traces = Some [''t1'' \<mapsto> Iface (7::nat)]\<rparr>
     \<lparr>world = 0::nat, logs = []\<rparr> =
     Inr (NilIface, \<lparr>Resolver = (), Client = (), traces = Some [''t1'' \<mapsto> Iface 7]\<rparr>,
          \<lparr>world = 0, logs = []\<rparr>)"
  using LookupOrCreate_nil_func_no_entry
    [of "\<lparr>Resolver = (), Client = (), traces = Some [''t1'' \<mapsto> Iface (7::nat)]\<rparr>" "''t2''"
        "\<lparr>world = 0::nat, logs = []\<rparr>"]
  by (simp add: entries_def)

text \<open>
  Claim C9. When the name has no entry and the function passed to \<open>LookupOrCreate\<close>
  returns nil, nil is stored as the entry of the name. After any further calls of
  \<open>Initialize\<close>, \<open>LookupOrCreate\<close> and \<open>Delete\<close> among which none is \<open>Delete\<close> of
  that name, \<open>LookupOrCreate\<close> of the name returns nil for every function argument and
  changes neither the registry nor the environment.
\<close>

theorem nil_trace_occupies_name:
  assumes "entries f n = None" and "fst (new e) = NilIface" and "Call_Delete n \<notin> set cs"
  shows "\<exists>f1 f2 e2.
     LookupOrCreate n (Some new) f e = Inr (NilIface, f1, snd (new e)) \<and>
     entries f1 n = Some NilIface \<and>
     run cs (f1, snd (new e)) = Inr (f2, e2) \<and>
     (\<forall>newTrace e3. LookupOrCreate n newTrace f2 e3 = Inr (NilIface, f2, e3))"
proof -
  let ?f1 = "f\<lparr>traces := Some ((entries f)(n \<mapsto> NilIface))\<rparr>"
  have first: "LookupOrCreate n (Some new) f e = Inr (NilIface, ?f1, snd (new e))"
    using LookupOrCreate_absent_new [OF assms(1), of new e] assms(2) by simp
  have stored: "entries ?f1 n = Some NilIface" by simp
  obtain f2 e2 where
    r: "run cs (?f1, snd (new e)) = Inr (f2, e2)"
    and keep: "Call_Delete n \<notin> set cs \<longrightarrow>
      (\<forall>u. entries ?f1 n = Some u \<longrightarrow> entries f2 n = Some u)"
    using run_returns [of cs ?f1 "snd (new e)" n] by blast
  from keep assms(3) stored have "entries f2 n = Some NilIface" by blast
  then have "\<forall>newTrace e3. LookupOrCreate n newTrace f2 e3 = Inr (NilIface, f2, e3)"
    by (simp add: LookupOrCreate_present)
  with first stored r show ?thesis by blast
qed

text \<open>
  On a fresh factory: the constructor of \<open>t1\<close> returns nil; then \<open>t2\<close> is created
  and deleted and \<open>Initialize\<close> is called; \<open>t1\<close> still reads as nil.
\<close>

theorem nil_trace_occupies_name_witness:
  "entries \<lparr>Resolver = (), Client = (), traces = None :: (string, nat iface) go_map\<rparr> ''t1'' = None \<and>
   Call_Delete ''t1'' \<notin>
     set [Call_LookupOrCreate ''t2'' (Some (counting (Iface (5::nat)))), Call_Delete ''t2'',
          Call_Initialize () ()] \<and>
   (\<exists>f1 f2 e2.
      LookupOrCreate ''t1'' (Some (counting NilIface))
        \<lparr>Resolver = (), Client = (), traces = None\<rparr> \<lparr>world = 0, logs = []\<rparr> =
        Inr (NilIface, f1, \<lparr>world = 1, logs = []\<rparr>) \<and>
      entries f1 ''t1'' = Some NilIface \<and>
      run [Call_LookupOrCreate ''t2'' (Some (counting (Iface (5::nat)))), Call_Delete ''t2'',
           Call_Initialize () ()]
        (f1, \<lparr>world = 1, logs = []\<rparr>) = Inr (f2, e2) \<and>
      (\<forall>newTrace e3. LookupOrCreate ''t1'' newTrace f2 e3 = Inr (NilIface, f2, e3)))"
proof -
  let ?f = "\<lparr>Resolver = (), Client = (), traces = None :: (string, nat iface) go_map\<rparr>"
  let ?e = "\<lparr>world = 0::nat, logs = []\<rparr>"
  let ?cs = "[Call_LookupOrCreate ''t2'' (Some (counting (Iface (5::nat)))),
              Call_Delete ''t2'', Call_Initialize () ()]"
  have absent: "entries ?f ''t1'' = None"
    by (simp add: entries_def)
  have nil: "fst (counting (NilIface :: nat iface) ?e) = NilIface"
    by (simp add: counting_def)
  have no_delete: "Call_Delete ''t1'' \<notin> set ?cs"
    by simp
  have after: "snd (counting (NilIface :: nat iface) ?e) = \<lparr>world = 1, logs = []\<rparr>"
    by (simp add: counting_def)
  note main =
    nil_trace_occupies_name
      [where f = ?f and n = "''t1''" and new = "counting NilIface" and e = ?e and cs = ?cs,
       OF absent nil no_delete, unfolded after]
  show ?thesis
    by (rule conjI [OF absent conjI [OF no_delete main]])
qed

subsection \<open>Delete on a name without entry\<close>

text \<open>
  Claim C3. For every name with no entry, \<open>Delete\<close> returns with the factory as it
  was, the trace map included; all it does is write its two log lines.
\<close>

theorem Delete_without_entry_is_noop:
  "entries f n = None \<Longrightarrow>
   Delete n f e =
     (f, e\<lparr>logs := logs e @ [''Deleting '' @ n, ''Deleting '' @ n @ '': does not exist'']\<rparr>)"
  by (rule Delete_absent)

theorem Delete_without_entry_is_noop_witness:
  "entries \<lparr>Resolver = (), Client = (), traces = Some [''t1'' \<mapsto> Iface (7::nat)]\<rparr> ''t2'' = None \<and>
   Delete ''t2'' \<lparr>Resolver = (), Client = (), traces = Some [''t1'' \<mapsto> Iface (7::nat)]\<rparr>
     \<lparr>world = 0::nat, logs = []\<rparr> =
     (\<lparr>Resolver = (), Client = (), traces = Some [''t1'' \<mapsto> Iface 7]\<rparr>,
      \<lparr>world = 0, logs = [''Deleting t2'', ''Deleting t2: does not exist'']\<rparr>)"
  using Delete_without_entry_is_noop
    [of "\<lparr>Resolver = (), Client = (), traces = Some [''t1'' \<mapsto> Iface (7::nat)]\<rparr>" "''t2''"
        "\<lparr>world = 0::nat, logs = []\<rparr>"]
  by (simp add: entries_def)

text \<open>
  Claim C8. On a \<open>BaseFactory\<close> whose \<open>traces\<close> field is still nil (no
  \<open>LookupOrCreate\<close> has run), \<open>Delete\<close> of any name returns, and the factory is as
  before: the field stays nil, \<open>Resolver\<close> and \<open>Client\<close> stay as they were, and
  only the two log lines are written.
\<close>

theorem Delete_on_nil_traces:
  "Delete n \<lparr>Resolver = r, Client = c, traces = None\<rparr> e =
     (\<lparr>Resolver = r, Client = c, traces = None\<rparr>,
      e\<lparr>logs := logs e @ [''Deleting '' @ n, ''Deleting '' @ n @ '': does not exist'']\<rparr>)"
  by (simp add: Delete_def map_index_def Infof_def)

subsection \<open>One entry per name\<close>

text \<open>
  Claim C6. From any state of a \<open>BaseFactory\<close>, every sequence of \<open>Initialize\<close>,
  \<open>LookupOrCreate\<close> and \<open>Delete\<close> calls runs to its end, and in the state it reaches
  each name has at most one entry in the trace store.
\<close>

theorem at_most_one_entry_per_name:
  "\<exists>f' e'. run cs (f, e) = Inr (f', e') \<and> (\<forall>n. card {v. (n, v) \<in> trace_entries f'} \<le> 1)"
proof -
  obtain f' e' where "run cs (f, e) = Inr (f', e')"
    using run_returns [of cs f e undefined] by blast
  then show ?thesis
    using one_value_per_name by blast
qed

subsection \<open>Operations and Initialize\<close>

text \<open>
  Claim C7. \<open>Operations\<close> of \<open>BaseFactory\<close> returns a map without any key, whatever
  the state of the factory.
\<close>

theorem Operations_is_empty:
  "Operations f = Some Map.empty"
  by (simp add: Operations_def)

text \<open>
  Claim C10. \<open>Initialize\<close> sets \<open>Resolver\<close> and \<open>Client\<close> to its arguments and leaves
  the \<open>traces\<close> field, and so every entry, as it was; a second call replaces what the
  first one bound.
\<close>

theorem Initialize_keeps_traces:
  "Resolver (Initialize r c f) = r \<and>
   Client (Initialize r c f) = c \<and>
   traces (Initialize r c f) = traces f \<and>
   entries (Initialize r c f) = entries f \<and>
   Initialize r' c' (Initialize r c f) = Initialize r' c' f"
  by (simp add: Initialize_def entries_def)

end
